theory Spec2Isabelle
  imports Complex_Main
begin

section \<open>Boxes + Ball: collision detection and resolution (src/main.py)\<close>

text \<open>
  The program keeps two keyboard-driven boxes (\<open>pygame.Rect\<close>, integer coordinates) and one
  ball (\<open>pygame.Vector2\<close> position and velocity) inside a 960 x 720 window.

  Modelling conventions.
  \<^item> Python \<open>int\<close> is \<open>int\<close>. Python \<open>float\<close> and the components of \<open>pygame.Vector2\<close> are
    modelled as \<open>real\<close>: arithmetic is exact, rounding error is not represented. A decimal
    literal of the source is the rational number it denotes (\<open>0.95\<close> is \<open>95 / 100\<close>).
  \<^item> A \<open>pygame.Rect\<close> is a record of its four integer fields; the derived attributes
    \<open>left\<close>, \<open>right\<close>, \<open>top\<close>, \<open>bottom\<close> are functions, and assigning to \<open>right\<close>,
    \<open>bottom\<close> or \<open>topleft\<close> moves the rectangle without resizing it.
  \<^item> A function that mutates its argument (\<open>resolve_aabb_overlap\<close> moves \<open>mover\<close>) returns
    the updated argument next to its result.
  \<^item> One pass of the \<open>while running\<close> loop is the function \<open>tick\<close> from the state, the
    pressed keys and the elapsed time to the next state; event handling and drawing are
    left out.
\<close>

subsection \<open>Constants (lines 5-17)\<close>

definition WIDTH :: int where "WIDTH = 960"
definition HEIGHT :: int where "HEIGHT = 720"
definition BOX_SIZE :: int where "BOX_SIZE = 50"
definition SPEED :: int where "SPEED = 500"
definition BALL_RADIUS :: int where "BALL_RADIUS = 22"
definition BALL_START_VEL :: "real \<times> real" where "BALL_START_VEL = (250, - 180)"
definition BALL_BOUNCE_DAMP :: real where "BALL_BOUNCE_DAMP = 95 / 100"
definition BALL_FRICTION :: real where "BALL_FRICTION = 995 / 1000"

subsection \<open>pygame.Rect\<close>

record Rect =
  rect_x :: int
  rect_y :: int
  rect_w :: int
  rect_h :: int

definition rect_left :: "Rect \<Rightarrow> int" where "rect_left a = rect_x a"
definition rect_top :: "Rect \<Rightarrow> int" where "rect_top a = rect_y a"
definition rect_right :: "Rect \<Rightarrow> int" where "rect_right a = rect_x a + rect_w a"
definition rect_bottom :: "Rect \<Rightarrow> int" where "rect_bottom a = rect_y a + rect_h a"

definition mk_rect :: "int \<Rightarrow> int \<Rightarrow> int \<Rightarrow> int \<Rightarrow> Rect" where
  \<comment> \<open>\<open>pygame.Rect(x, y, w, h)\<close>\<close>
  "mk_rect px py pw ph = \<lparr>rect_x = px, rect_y = py, rect_w = pw, rect_h = ph\<rparr>"

definition set_topleft :: "Rect \<Rightarrow> int \<times> int \<Rightarrow> Rect" where
  \<comment> \<open>\<open>rect.topleft = (px, py)\<close>\<close>
  "set_topleft a p = a\<lparr>rect_x := fst p, rect_y := snd p\<rparr>"

definition topleft :: "Rect \<Rightarrow> int \<times> int" where
  "topleft a = (rect_x a, rect_y a)"

definition set_right :: "Rect \<Rightarrow> int \<Rightarrow> Rect" where
  \<comment> \<open>\<open>rect.right = v\<close>\<close>
  "set_right a v = a\<lparr>rect_x := v - rect_w a\<rparr>"

definition set_bottom :: "Rect \<Rightarrow> int \<Rightarrow> Rect" where
  \<comment> \<open>\<open>rect.bottom = v\<close>\<close>
  "set_bottom a v = a\<lparr>rect_y := v - rect_h a\<rparr>"

text \<open>
  \<open>Rect.colliderect\<close> is pygame's, not the program's. It is modelled after pygame 2: a
  rectangle of zero width or height collides with nothing, a negative width or height is
  read as the interval between the two edges, and the comparison is strict, so rectangles
  that only share an edge do not collide. For rectangles of positive width and height
  (the boxes of the program are 50 x 50) this is the usual strict intersection test.
\<close>

definition colliderect :: "Rect \<Rightarrow> Rect \<Rightarrow> bool" where
  "colliderect a b =
     (if rect_w a = 0 \<or> rect_h a = 0 \<or> rect_w b = 0 \<or> rect_h b = 0 then False
      else min (rect_x a) (rect_x a + rect_w a) < max (rect_x b) (rect_x b + rect_w b)
         \<and> min (rect_y a) (rect_y a + rect_h a) < max (rect_y b) (rect_y b + rect_h b)
         \<and> max (rect_x a) (rect_x a + rect_w a) > min (rect_x b) (rect_x b + rect_w b)
         \<and> max (rect_y a) (rect_y a + rect_h a) > min (rect_y b) (rect_y b + rect_h b))"

subsection \<open>Python built-ins used by the program\<close>

definition py_int :: "real \<Rightarrow> int" where
  \<comment> \<open>\<open>int(v)\<close> on a float truncates toward zero\<close>
  "py_int v = (if 0 \<le> v then \<lfloor>v\<rfloor> else \<lceil>v\<rceil>)"

fun min_by :: "('a \<Rightarrow> real) \<Rightarrow> 'a \<Rightarrow> 'a list \<Rightarrow> 'a" where
  \<comment> \<open>\<open>min(iterable, key=f)\<close> on a list with first element \<open>best\<close>: a later element
      replaces the current one only when its key is strictly smaller, so the first minimum
      wins. The only call of the program is on a literal list of four elements.\<close>
  "min_by f best [] = best"
| "min_by f best (v # vs) = (if f v < f best then min_by f v vs else min_by f best vs)"

definition hypot :: "real \<Rightarrow> real \<Rightarrow> real" where
  \<comment> \<open>\<open>math.hypot\<close>\<close>
  "hypot a b = sqrt (a * a + b * b)"

subsection \<open>resolve_aabb_overlap (lines 20-58)\<close>

definition min_x_overlap :: "Rect \<Rightarrow> Rect \<Rightarrow> int" where
  "min_x_overlap mover static =
     (let overlap_left = rect_right mover - rect_left static;
          overlap_right = rect_right static - rect_left mover
      in if overlap_left < overlap_right then overlap_left else - overlap_right)"

definition min_y_overlap :: "Rect \<Rightarrow> Rect \<Rightarrow> int" where
  "min_y_overlap mover static =
     (let overlap_top = rect_bottom mover - rect_top static;
          overlap_bottom = rect_bottom static - rect_top mover
      in if overlap_top < overlap_bottom then overlap_top else - overlap_bottom)"

definition resolve_aabb_overlap :: "Rect \<Rightarrow> Rect \<Rightarrow> real \<Rightarrow> real \<Rightarrow> Rect \<times> (int \<times> int)" where
  \<comment> \<open>returns the moved \<open>mover\<close> and the correction \<open>(dx, dy)\<close>; the corrections are integers,
      so \<open>int(dx)\<close> is \<open>dx\<close>\<close>
  "resolve_aabb_overlap mover static vx vy =
     (if \<not> colliderect mover static then (mover, (0, 0))
      else
        let mx = min_x_overlap mover static;
            my = min_y_overlap mover static;
            d = (if \<bar>mx\<bar> < \<bar>my\<bar> then (- mx, 0)
                 else if \<bar>my\<bar> < \<bar>mx\<bar> then (0, - my)
                 else if \<bar>vx\<bar> \<ge> \<bar>vy\<bar> then (- mx, 0)
                 else (0, - my))
        in (mover\<lparr>rect_x := rect_x mover + fst d, rect_y := rect_y mover + snd d\<rparr>, d))"

subsection \<open>circle_rect_overlap (lines 61-101)\<close>

definition push_left :: "real \<Rightarrow> real \<Rightarrow> Rect \<Rightarrow> real \<times> real" where
  "push_left cx r rect = (let left_dist = \<bar>cx - real_of_int (rect_left rect)\<bar> in (- (r - left_dist), 0))"

definition push_right :: "real \<Rightarrow> real \<Rightarrow> Rect \<Rightarrow> real \<times> real" where
  "push_right cx r rect = (let right_dist = \<bar>real_of_int (rect_right rect) - cx\<bar> in (r - right_dist, 0))"

definition push_up :: "real \<Rightarrow> real \<Rightarrow> Rect \<Rightarrow> real \<times> real" where
  "push_up cy r rect = (let top_dist = \<bar>cy - real_of_int (rect_top rect)\<bar> in (0, - (r - top_dist)))"

definition push_down :: "real \<Rightarrow> real \<Rightarrow> Rect \<Rightarrow> real \<times> real" where
  "push_down cy r rect = (let bottom_dist = \<bar>real_of_int (rect_bottom rect) - cy\<bar> in (0, r - bottom_dist))"

definition push_options :: "real \<Rightarrow> real \<Rightarrow> real \<Rightarrow> Rect \<Rightarrow> (real \<times> real) list" where
  \<comment> \<open>the list \<open>options\<close> of lines 86-91, in the order of the source\<close>
  "push_options cx cy r rect =
     [push_left cx r rect, push_right cx r rect, push_up cy r rect, push_down cy r rect]"

definition push_key :: "real \<times> real \<Rightarrow> real" where
  \<comment> \<open>\<open>lambda v: abs(v[0]) + abs(v[1])\<close>\<close>
  "push_key v = \<bar>fst v\<bar> + \<bar>snd v\<bar>"

definition closest_x :: "real \<Rightarrow> Rect \<Rightarrow> real" where
  "closest_x cx rect = max (real_of_int (rect_left rect)) (min cx (real_of_int (rect_right rect)))"

definition closest_y :: "real \<Rightarrow> Rect \<Rightarrow> real" where
  "closest_y cy rect = max (real_of_int (rect_top rect)) (min cy (real_of_int (rect_bottom rect)))"

definition circle_rect_overlap :: "real \<Rightarrow> real \<Rightarrow> real \<Rightarrow> Rect \<Rightarrow> real \<times> real" where
  "circle_rect_overlap cx cy r rect =
     (let dx = cx - closest_x cx rect;
          dy = cy - closest_y cy rect;
          dist_sq = dx * dx + dy * dy
      in if dist_sq > r * r then (0, 0)
         else
           let dist = (if dist_sq \<noteq> 0 then sqrt dist_sq else 0)
           in if dist = 0 then
                min_by push_key (push_left cx r rect)
                  [push_right cx r rect, push_up cy r rect, push_down cy r rect]
              else
                let nx = dx / dist;
                    ny = dy / dist;
                    pen = r - dist
                in (nx * pen, ny * pen))"

subsection \<open>reflect_velocity_over_normal (lines 104-109)\<close>

definition reflect_velocity_over_normal ::
  "real \<Rightarrow> real \<Rightarrow> real \<Rightarrow> real \<Rightarrow> real \<Rightarrow> real \<times> real" where
  "reflect_velocity_over_normal vx vy nx ny damp =
     (let dot = vx * nx + vy * ny;
          rx = vx - 2 * dot * nx;
          ry = vy - 2 * dot * ny
      in (rx * damp, ry * damp))"

subsection \<open>The main loop (lines 112-258)\<close>

record Keys =
  K_RIGHT :: bool
  K_LEFT :: bool
  K_DOWN :: bool
  K_UP :: bool
  K_d :: bool
  K_a :: bool
  K_s :: bool
  K_w :: bool

record Sim =
  x1 :: real
  y1 :: real
  x2 :: real
  y2 :: real
  box1 :: Rect
  box2 :: Rect
  ball_pos :: "real \<times> real"
  ball_vel :: "real \<times> real"

definition initial :: Sim where
  \<comment> \<open>lines 118-130; \<open>910 / 1.2\<close> is \<open>9100 / 12\<close>\<close>
  "initial =
     (let px1 = real_of_int (WIDTH - BOX_SIZE) / (12 / 10);
          py1 = real_of_int (HEIGHT - BOX_SIZE) / 2;
          px2 = real_of_int (WIDTH - BOX_SIZE) / 4;
          py2 = real_of_int (HEIGHT - BOX_SIZE) / 2
      in \<lparr>x1 = px1, y1 = py1, x2 = px2, y2 = py2,
          box1 = mk_rect (py_int px1) (py_int py1) BOX_SIZE BOX_SIZE,
          box2 = mk_rect (py_int px2) (py_int py2) BOX_SIZE BOX_SIZE,
          ball_pos = (real_of_int WIDTH * (5 / 10), real_of_int HEIGHT * (5 / 10)),
          ball_vel = BALL_START_VEL\<rparr>)"

definition direction :: "bool \<Rightarrow> bool \<Rightarrow> bool \<Rightarrow> bool \<Rightarrow> real \<times> real" where
  \<comment> \<open>lines 143-148 and 158-163: \<open>keys[pos] - keys[neg]\<close> on each axis, scaled by
      \<open>1 / 1.41421356237\<close> when both are nonzero\<close>
  "direction kpx knx kpy kny =
     (let dx = (of_bool kpx - of_bool knx :: int);
          dy = (of_bool kpy - of_bool kny :: int)
      in if dx \<noteq> 0 \<and> dy \<noteq> 0 then
           (let inv = 1 / (141421356237 / 100000000000)
            in (real_of_int dx * inv, real_of_int dy * inv))
         else (real_of_int dx, real_of_int dy))"

definition move_clamp :: "real \<Rightarrow> real \<Rightarrow> real \<Rightarrow> int \<Rightarrow> real" where
  \<comment> \<open>lines 149-154: \<open>p += d * SPEED * dt; p = max(0, min(p, limit - BOX_SIZE))\<close>\<close>
  "move_clamp p d dt limit =
     max 0 (min (p + d * real_of_int SPEED * dt) (real_of_int (limit - BOX_SIZE)))"

definition correction :: "Rect \<Rightarrow> Rect \<Rightarrow> int" where
  \<comment> \<open>lines 181-182: \<open>abs(r.x - box.x) + abs(r.y - box.y)\<close>\<close>
  "correction r box = \<bar>rect_x r - rect_x box\<bar> + \<bar>rect_y r - rect_y box\<bar>"

definition resolve_boxes ::
  "Rect \<Rightarrow> Rect \<Rightarrow> real \<Rightarrow> real \<Rightarrow> real \<Rightarrow> real \<Rightarrow> Rect \<times> Rect" where
  \<comment> \<open>lines 175-197, the body of \<open>if box1.colliderect(box2)\<close>\<close>
  "resolve_boxes b1 b2 dx1 dy1 dx2 dy2 =
     (let r1 = fst (resolve_aabb_overlap b1 b2 dx1 dy1);
          r2 = fst (resolve_aabb_overlap b2 b1 dx2 dy2);
          corr1 = correction r1 b1;
          corr2 = correction r2 b2
      in if corr1 + corr2 = 0 then
           (if \<bar>dx1\<bar> + \<bar>dx2\<bar> \<ge> \<bar>dy1\<bar> + \<bar>dy2\<bar> then
              (if dx1 > dx2 then (set_right b1 (rect_left b2), b2)
               else (b1, set_right b2 (rect_left b1)))
            else
              (if dy1 > dy2 then (set_bottom b1 (rect_top b2), b2)
               else (b1, set_bottom b2 (rect_top b1))))
         else (set_topleft b1 (topleft r1), set_topleft b2 (topleft r2)))"

definition move_boxes :: "Sim \<Rightarrow> Keys \<Rightarrow> real \<Rightarrow> Sim" where
  \<comment> \<open>lines 142-200: input, clamp and sync of both boxes, then the box-box resolution\<close>
  "move_boxes s k dt =
     (let d1 = direction (K_RIGHT k) (K_LEFT k) (K_DOWN k) (K_UP k);
          px1 = move_clamp (x1 s) (fst d1) dt WIDTH;
          py1 = move_clamp (y1 s) (snd d1) dt HEIGHT;
          b1 = set_topleft (box1 s) (py_int px1, py_int py1);
          d2 = direction (K_d k) (K_a k) (K_s k) (K_w k);
          px2 = move_clamp (x2 s) (fst d2) dt WIDTH;
          py2 = move_clamp (y2 s) (snd d2) dt HEIGHT;
          b2 = set_topleft (box2 s) (py_int px2, py_int py2)
      in if colliderect b1 b2 then
           (let bs = resolve_boxes b1 b2 (fst d1) (snd d1) (fst d2) (snd d2)
            in s\<lparr>x1 := real_of_int (rect_x (fst bs)), y1 := real_of_int (rect_y (fst bs)),
                 x2 := real_of_int (rect_x (snd bs)), y2 := real_of_int (rect_y (snd bs)),
                 box1 := fst bs, box2 := snd bs\<rparr>)
         else s\<lparr>x1 := px1, y1 := py1, x2 := px2, y2 := py2, box1 := b1, box2 := b2\<rparr>)"

type_synonym ball = "(real \<times> real) \<times> (real \<times> real)"
  \<comment> \<open>\<open>(ball_pos, ball_vel)\<close>\<close>

definition integrate_ball :: "ball \<Rightarrow> real \<Rightarrow> ball" where
  \<comment> \<open>lines 203-204\<close>
  "integrate_ball b dt =
     (case b of ((px, py), (vx, vy)) \<Rightarrow>
        ((px + vx * dt, py + vy * dt), (vx * BALL_FRICTION, vy * BALL_FRICTION)))"

definition wall_low :: "real \<times> real \<Rightarrow> real \<times> real" where
  \<comment> \<open>lines 207-209 and 213-215 on one axis, as (position, velocity)\<close>
  "wall_low a =
     (case a of (p, v) \<Rightarrow>
        if p - real_of_int BALL_RADIUS < 0 then (real_of_int BALL_RADIUS, - v * BALL_BOUNCE_DAMP)
        else (p, v))"

definition wall_high :: "int \<Rightarrow> real \<times> real \<Rightarrow> real \<times> real" where
  \<comment> \<open>lines 210-212 and 216-218 on one axis, as (position, velocity)\<close>
  "wall_high limit a =
     (case a of (p, v) \<Rightarrow>
        if p + real_of_int BALL_RADIUS > real_of_int limit
        then (real_of_int limit - real_of_int BALL_RADIUS, - v * BALL_BOUNCE_DAMP)
        else (p, v))"

definition bounce_walls :: "ball \<Rightarrow> ball" where
  \<comment> \<open>lines 207-218: left, right, top, bottom, each checked in turn\<close>
  "bounce_walls b =
     (case b of ((px, py), (vx, vy)) \<Rightarrow>
        let ax = wall_high WIDTH (wall_low (px, vx));
            ay = wall_high HEIGHT (wall_low (py, vy))
        in ((fst ax, fst ay), (snd ax, snd ay)))"

definition contact_normal :: "real \<Rightarrow> real \<Rightarrow> real \<times> real" where
  \<comment> \<open>lines 232-236\<close>
  "contact_normal px py =
     (let nlen = hypot px py
      in if nlen = 0 then (0, - 1) else (px / nlen, py / nlen))"

definition bounce_box :: "ball \<Rightarrow> Rect \<Rightarrow> real \<Rightarrow> real \<Rightarrow> ball" where
  \<comment> \<open>lines 225-246, the body of the loop over the two boxes\<close>
  "bounce_box b rect mvx mvy =
     (case b of ((bx, by), (vx, vy)) \<Rightarrow>
        let p = circle_rect_overlap bx by (real_of_int BALL_RADIUS) rect
        in if fst p \<noteq> 0 \<or> snd p \<noteq> 0 then
             (let n = contact_normal (fst p) (snd p);
                  rel_vx = vx - mvx;
                  rel_vy = vy - mvy;
                  rv = reflect_velocity_over_normal rel_vx rel_vy (fst n) (snd n) BALL_BOUNCE_DAMP
              in ((bx + fst p, by + snd p), (fst rv + mvx, snd rv + mvy)))
           else b)"

definition tick :: "Sim \<Rightarrow> Keys \<Rightarrow> real \<Rightarrow> Sim" where
  \<comment> \<open>one pass of the loop body, lines 134-246, for the keys pressed and \<open>dt\<close> seconds\<close>
  "tick s k dt =
     (let d1 = direction (K_RIGHT k) (K_LEFT k) (K_DOWN k) (K_UP k);
          d2 = direction (K_d k) (K_a k) (K_s k) (K_w k);
          s' = move_boxes s k dt;
          b = bounce_walls (integrate_ball (ball_pos s, ball_vel s) dt);
          b' = bounce_box b (box1 s') (fst d1 * real_of_int SPEED) (snd d1 * real_of_int SPEED);
          b'' = bounce_box b' (box2 s') (fst d2 * real_of_int SPEED) (snd d2 * real_of_int SPEED)
      in s'\<lparr>ball_pos := fst b'', ball_vel := snd b''\<rparr>)"

definition degenerate :: "real \<Rightarrow> real \<Rightarrow> Rect \<Rightarrow> bool" where
  \<comment> \<open>the center is its own closest point of the rectangle: the test \<open>dist == 0.0\<close> of
      line 79 succeeds\<close>
  "degenerate cx cy rect \<longleftrightarrow> closest_x cx rect = cx \<and> closest_y cy rect = cy"

definition ball_after_walls :: "Sim \<Rightarrow> real \<Rightarrow> ball" where
  \<comment> \<open>the ball of \<open>tick\<close> after line 218\<close>
  "ball_after_walls s dt = bounce_walls (integrate_ball (ball_pos s, ball_vel s) dt)"

definition ball_after_box1 :: "Sim \<Rightarrow> Keys \<Rightarrow> real \<Rightarrow> ball" where
  \<comment> \<open>the ball of \<open>tick\<close> after the first pass of the loop of line 221\<close>
  "ball_after_box1 s k dt =
     (let d1 = direction (K_RIGHT k) (K_LEFT k) (K_DOWN k) (K_UP k)
      in bounce_box (ball_after_walls s dt) (box1 (move_boxes s k dt))
           (fst d1 * real_of_int SPEED) (snd d1 * real_of_int SPEED))"

definition speed :: "real \<times> real \<Rightarrow> real" where
  \<comment> \<open>the magnitude of a velocity\<close>
  "speed v = sqrt (fst v * fst v + snd v * snd v)"

subsection \<open>States and inputs of the examples\<close>

definition no_keys :: Keys where
  "no_keys = \<lparr>K_RIGHT = False, K_LEFT = False, K_DOWN = False, K_UP = False,
              K_d = False, K_a = False, K_s = False, K_w = False\<rparr>"

definition right_key :: Keys where
  \<comment> \<open>only the right arrow is pressed: box 1 moves right\<close>
  "right_key = no_keys\<lparr>K_RIGHT := True\<rparr>"

definition a_key :: Keys where
  \<comment> \<open>only \<open>a\<close> is pressed: box 2 moves left\<close>
  "a_key = no_keys\<lparr>K_a := True\<rparr>"

definition boxes_at :: "int \<Rightarrow> int \<Rightarrow> int \<Rightarrow> int \<Rightarrow> real \<times> real \<Rightarrow> real \<times> real \<Rightarrow> Sim" where
  \<comment> \<open>a state with the two boxes at the given integer positions and the given ball\<close>
  "boxes_at px1 py1 px2 py2 pos vel =
     \<lparr>x1 = real_of_int px1, y1 = real_of_int py1, x2 = real_of_int px2, y2 = real_of_int py2,
      box1 = mk_rect px1 py1 BOX_SIZE BOX_SIZE, box2 = mk_rect px2 py2 BOX_SIZE BOX_SIZE,
      ball_pos = pos, ball_vel = vel\<rparr>"

section \<open>Rectangles\<close>

lemmas rect_edges = rect_left_def rect_right_def rect_top_def rect_bottom_def

lemma colliderect_positive:
  assumes "0 < rect_w a" "0 < rect_h a" "0 < rect_w b" "0 < rect_h b"
  shows "colliderect a b \<longleftrightarrow>
           rect_left a < rect_right b \<and> rect_top a < rect_bottom b \<and>
           rect_left b < rect_right a \<and> rect_top b < rect_bottom a"
  using assms by (auto simp: colliderect_def rect_edges)

lemma colliderect_sym: "colliderect a b \<longleftrightarrow> colliderect b a"
  by (auto simp: colliderect_def)

lemma touching_x_not_collide:
  assumes "0 \<le> rect_w a" "0 \<le> rect_w b" "rect_right a = rect_left b"
  shows "\<not> colliderect a b"
  using assms by (auto simp: colliderect_def rect_edges)

lemma touching_y_not_collide:
  assumes "0 \<le> rect_h a" "0 \<le> rect_h b" "rect_bottom a = rect_top b"
  shows "\<not> colliderect a b"
  using assms by (auto simp: colliderect_def rect_edges)

section \<open>The velocity reflector\<close>

text \<open>
  C6. For every velocity, normal and damping factor \<open>reflect_velocity_over_normal\<close> returns
  \<open>(v - 2 (v \<cdot> n) n) * damping\<close>, component by component; reflecting \<open>(5, 0)\<close> about the
  normal \<open>(1, 0)\<close> with damping \<open>1\<close> gives \<open>(-5, 0)\<close>. (Over the reals the result is exact.)
\<close>

theorem reflect_formula:
  "reflect_velocity_over_normal vx vy nx ny damp =
     ((vx - 2 * (vx * nx + vy * ny) * nx) * damp, (vy - 2 * (vx * nx + vy * ny) * ny) * damp)
   \<and> reflect_velocity_over_normal 5 0 1 0 1 = (- 5, 0)"
  by (simp add: reflect_velocity_over_normal_def Let_def)

section \<open>The AABB resolver\<close>

text \<open>
  C8. When the two rectangles do not collide, \<open>resolve_aabb_overlap\<close> returns the correction
  \<open>(0, 0)\<close> and the mover as it was, whatever the intended motion; a second call on the
  result does the same. (The static rectangle is only read.) Rectangles that share an
  edge do not collide (\<open>touching_x_not_collide\<close>, \<open>touching_y_not_collide\<close>), and the
  witness is such a pair.
\<close>

theorem resolve_separated_noop:
  assumes "\<not> colliderect mover static"
  shows "resolve_aabb_overlap mover static vx vy = (mover, (0, 0))
       \<and> resolve_aabb_overlap (fst (resolve_aabb_overlap mover static vx vy)) static vx vy
           = (mover, (0, 0))"
  using assms by (simp add: resolve_aabb_overlap_def)

theorem resolve_separated_noop_witness:
  "\<not> colliderect (mk_rect 100 200 50 50) (mk_rect 150 200 50 50)
   \<and> resolve_aabb_overlap (mk_rect 100 200 50 50) (mk_rect 150 200 50 50) 1 0
       = (mk_rect 100 200 50 50, (0, 0))
   \<and> resolve_aabb_overlap
         (fst (resolve_aabb_overlap (mk_rect 100 200 50 50) (mk_rect 150 200 50 50) 1 0))
         (mk_rect 150 200 50 50) 1 0
       = (mk_rect 100 200 50 50, (0, 0))"
proof -
  have sep: "\<not> colliderect (mk_rect 100 200 50 50) (mk_rect 150 200 50 50)"
    by (simp add: colliderect_def mk_rect_def)
  show ?thesis
    using sep resolve_separated_noop [OF sep, of 1 0] by simp
qed



section \<open>Box against box\<close>

lemma min_overlap_nonzero:
  assumes "colliderect a b" "0 < rect_w a" "0 < rect_h a" "0 < rect_w b" "0 < rect_h b"
  shows "min_x_overlap a b \<noteq> 0" and "min_y_overlap a b \<noteq> 0"
  using assms
  by (auto simp: colliderect_def rect_edges min_x_overlap_def min_y_overlap_def Let_def)

lemma correction_positive:
  assumes "colliderect a b" "0 < rect_w a" "0 < rect_h a" "0 < rect_w b" "0 < rect_h b"
  shows "0 < correction (fst (resolve_aabb_overlap a b vx vy)) a"
  using min_overlap_nonzero [OF assms] assms(1)
  by (auto simp: resolve_aabb_overlap_def correction_def Let_def)

text \<open>
  C9. The fallback of the box-box resolution is dead code. The boxes of the program keep
  their size of 50 x 50; for any two rectangles of positive width and height that pass
  the \<open>colliderect\<close> test of line 173, each of the two resolutions moves its copy, so
  \<open>corr1\<close> and \<open>corr2\<close> are both positive, their sum is not zero, and \<open>resolve_boxes\<close>
  takes the branch of lines 196-197.
\<close>

theorem fallback_unreachable:
  assumes "colliderect b1 b2"
      and "0 < rect_w b1" "0 < rect_h b1" "0 < rect_w b2" "0 < rect_h b2"
  shows "0 < correction (fst (resolve_aabb_overlap b1 b2 dx1 dy1)) b1
           + correction (fst (resolve_aabb_overlap b2 b1 dx2 dy2)) b2
       \<and> resolve_boxes b1 b2 dx1 dy1 dx2 dy2 =
           (set_topleft b1 (topleft (fst (resolve_aabb_overlap b1 b2 dx1 dy1))),
            set_topleft b2 (topleft (fst (resolve_aabb_overlap b2 b1 dx2 dy2))))"
proof -
  have c21: "colliderect b2 b1"
    using assms(1) by (simp add: colliderect_sym)
  have p1: "0 < correction (fst (resolve_aabb_overlap b1 b2 dx1 dy1)) b1"
    by (rule correction_positive [OF assms])
  have p2: "0 < correction (fst (resolve_aabb_overlap b2 b1 dx2 dy2)) b2"
    by (rule correction_positive [OF c21 assms(4) assms(5) assms(2) assms(3)])
  from p1 p2 show ?thesis
    by (simp add: resolve_boxes_def Let_def)
qed

theorem fallback_unreachable_witness:
  "colliderect (mk_rect 300 300 BOX_SIZE BOX_SIZE) (mk_rect 340 300 BOX_SIZE BOX_SIZE)
   \<and> 0 < correction (fst (resolve_aabb_overlap (mk_rect 300 300 BOX_SIZE BOX_SIZE)
                            (mk_rect 340 300 BOX_SIZE BOX_SIZE) 0 0))
                     (mk_rect 300 300 BOX_SIZE BOX_SIZE)
         + correction (fst (resolve_aabb_overlap (mk_rect 340 300 BOX_SIZE BOX_SIZE)
                            (mk_rect 300 300 BOX_SIZE BOX_SIZE) 0 0))
                     (mk_rect 340 300 BOX_SIZE BOX_SIZE)"
proof -
  have c: "colliderect (mk_rect 300 300 BOX_SIZE BOX_SIZE) (mk_rect 340 300 BOX_SIZE BOX_SIZE)"
    by (simp add: colliderect_def mk_rect_def BOX_SIZE_def)
  have "0 < rect_w (mk_rect 300 300 BOX_SIZE BOX_SIZE)" "0 < rect_h (mk_rect 300 300 BOX_SIZE BOX_SIZE)"
       "0 < rect_w (mk_rect 340 300 BOX_SIZE BOX_SIZE)" "0 < rect_h (mk_rect 340 300 BOX_SIZE BOX_SIZE)"
    by (simp_all add: mk_rect_def BOX_SIZE_def)
  from fallback_unreachable [OF c this, of 0 0 0 0] c show ?thesis
    by simp
qed

lemmas key_defs = no_keys_def right_key_def a_key_def

lemma direction_values:
  "direction False False False False = (0, 0)"
  "direction True False False False = (1, 0)"
  "direction False True False False = (- 1, 0)"
  by (simp_all add: direction_def)

lemma tick_boxes:
  "box1 (tick s k dt) = box1 (move_boxes s k dt)"
  "box2 (tick s k dt) = box2 (move_boxes s k dt)"
  by (simp_all add: tick_def Let_def)

lemma push_boxes:
  "box1 (move_boxes (boxes_at 290 300 340 300 p v) right_key (1 / 50)) = mk_rect 290 300 50 50"
  "box2 (move_boxes (boxes_at 290 300 340 300 p v) right_key (1 / 50)) = mk_rect 350 300 50 50"
  by (simp_all add: move_boxes_def boxes_at_def key_defs direction_values move_clamp_def
       WIDTH_def HEIGHT_def BOX_SIZE_def SPEED_def py_int_def set_topleft_def topleft_def
       colliderect_def mk_rect_def Let_def resolve_boxes_def resolve_aabb_overlap_def
       min_x_overlap_def min_y_overlap_def rect_edges correction_def)

text \<open>
  C1 (the code departs from the claim). The boxes start a tick at \<open>(290, 300)\<close> and
  \<open>(340, 300)\<close>, apart; box 1 is driven right by 10 pixels and overlaps box 2 by 10. The
  resolution with box 1 as mover gives the correction \<open>(-10, 0)\<close>, the one with box 2 as
  mover gives \<open>(10, 0)\<close>, and lines 196-197 write both back: box 1 ends at \<open>(290, 300)\<close>
  and box 2 at \<open>(350, 300)\<close>. Neither box is left where it was, although the comment of
  line 180 announces that the smaller of the two corrections is chosen.
\<close>

theorem box_box_applies_both:
  "box2 (boxes_at 290 300 340 300 (480, 360) BALL_START_VEL) = mk_rect 340 300 50 50
   \<and> resolve_aabb_overlap (mk_rect 300 300 50 50) (mk_rect 340 300 50 50) 1 0
        = (mk_rect 290 300 50 50, (- 10, 0))
   \<and> resolve_aabb_overlap (mk_rect 340 300 50 50) (mk_rect 300 300 50 50) 0 0
        = (mk_rect 350 300 50 50, (10, 0))
   \<and> resolve_boxes (mk_rect 300 300 50 50) (mk_rect 340 300 50 50) 1 0 0 0
        = (mk_rect 290 300 50 50, mk_rect 350 300 50 50)
   \<and> box1 (tick (boxes_at 290 300 340 300 (480, 360) BALL_START_VEL) right_key (1 / 50))
        = mk_rect 290 300 50 50
   \<and> box2 (tick (boxes_at 290 300 340 300 (480, 360) BALL_START_VEL) right_key (1 / 50))
        = mk_rect 350 300 50 50"
proof -
  have r1: "resolve_aabb_overlap (mk_rect 300 300 50 50) (mk_rect 340 300 50 50) 1 0
              = (mk_rect 290 300 50 50, (- 10, 0))"
    by (simp add: resolve_aabb_overlap_def colliderect_def min_x_overlap_def min_y_overlap_def
          rect_edges mk_rect_def Let_def)
  have r2: "resolve_aabb_overlap (mk_rect 340 300 50 50) (mk_rect 300 300 50 50) 0 0
              = (mk_rect 350 300 50 50, (10, 0))"
    by (simp add: resolve_aabb_overlap_def colliderect_def min_x_overlap_def min_y_overlap_def
          rect_edges mk_rect_def Let_def)
  have rb: "resolve_boxes (mk_rect 300 300 50 50) (mk_rect 340 300 50 50) 1 0 0 0
              = (mk_rect 290 300 50 50, mk_rect 350 300 50 50)"
    unfolding resolve_boxes_def r1 r2
    by (simp add: correction_def set_topleft_def topleft_def mk_rect_def)
  have b2: "box2 (boxes_at 290 300 340 300 (480, 360) BALL_START_VEL) = mk_rect 340 300 50 50"
    by (simp add: boxes_at_def BOX_SIZE_def)
  show ?thesis
    by (simp only: r1 r2 rb b2 tick_boxes push_boxes simp_thms)
qed

section \<open>Circle against rectangle\<close>

lemma min_by_mem: "min_by f b vs \<in> set (b # vs)"
  by (induction vs arbitrary: b) auto

lemma min_by_le_best: "f (min_by f b vs) \<le> f b"
proof (induction vs arbitrary: b)
  case Nil
  show ?case by simp
next
  case (Cons a vs)
  show ?case
  proof (cases "f a < f b")
    case True
    have "f (min_by f a vs) \<le> f a" by (rule Cons.IH)
    with True show ?thesis by simp
  next
    case False
    then show ?thesis by (simp add: Cons.IH)
  qed
qed

lemma min_by_le: "v \<in> set (b # vs) \<Longrightarrow> f (min_by f b vs) \<le> f v"
proof (induction vs arbitrary: b)
  case Nil
  then show ?case by simp
next
  case (Cons a vs)
  from Cons.prems consider "v = b" | "v = a" | "v \<in> set vs" by auto
  then show ?case
  proof cases
    case 1
    then show ?thesis using min_by_le_best [of f b "a # vs"] by simp
  next
    case 2
    show ?thesis
    proof (cases "f a < f b")
      case True
      then show ?thesis using min_by_le_best [of f a vs] 2 by simp
    next
      case False
      then show ?thesis using min_by_le_best [of f b vs] 2 by simp
    qed
  next
    case 3
    then show ?thesis using Cons.IH [of a] Cons.IH [of b] by simp
  qed
qed

lemma circle_rect_overlap_degenerate:
  assumes "degenerate cx cy rect"
  shows "circle_rect_overlap cx cy r rect =
           min_by push_key (push_left cx r rect)
             [push_right cx r rect, push_up cy r rect, push_down cy r rect]"
  using assms by (simp add: circle_rect_overlap_def degenerate_def Let_def not_less)

lemma push_options_axis:
  "v \<in> set (push_options cx cy r rect) \<Longrightarrow> fst v = 0 \<or> snd v = 0"
  by (auto simp: push_options_def push_left_def push_right_def push_up_def push_down_def)

text \<open>
  What the degenerate branch computes: when the center of the circle is its own closest
  point of the rectangle, the result is one of the four vectors of lines 86-91, each
  along one axis and of signed length \<open>r\<close> minus the distance of the center to one edge,
  and none of the four has a smaller \<open>|px| + |py|\<close>.
\<close>

lemma degenerate_returns_least_candidate:
  assumes "degenerate cx cy rect"
  shows "circle_rect_overlap cx cy r rect \<in>
           {(- (r - \<bar>cx - real_of_int (rect_left rect)\<bar>), 0),
            (r - \<bar>real_of_int (rect_right rect) - cx\<bar>, 0),
            (0, - (r - \<bar>cy - real_of_int (rect_top rect)\<bar>)),
            (0, r - \<bar>real_of_int (rect_bottom rect) - cy\<bar>)}
       \<and> \<bar>fst (circle_rect_overlap cx cy r rect)\<bar> + \<bar>snd (circle_rect_overlap cx cy r rect)\<bar>
             \<le> \<bar>r - \<bar>cx - real_of_int (rect_left rect)\<bar>\<bar>
       \<and> \<bar>fst (circle_rect_overlap cx cy r rect)\<bar> + \<bar>snd (circle_rect_overlap cx cy r rect)\<bar>
             \<le> \<bar>r - \<bar>real_of_int (rect_right rect) - cx\<bar>\<bar>
       \<and> \<bar>fst (circle_rect_overlap cx cy r rect)\<bar> + \<bar>snd (circle_rect_overlap cx cy r rect)\<bar>
             \<le> \<bar>r - \<bar>cy - real_of_int (rect_top rect)\<bar>\<bar>
       \<and> \<bar>fst (circle_rect_overlap cx cy r rect)\<bar> + \<bar>snd (circle_rect_overlap cx cy r rect)\<bar>
             \<le> \<bar>r - \<bar>real_of_int (rect_bottom rect) - cy\<bar>\<bar>"
proof -
  let ?m = "min_by push_key (push_left cx r rect)
              [push_right cx r rect, push_up cy r rect, push_down cy r rect]"
  have mem: "?m \<in> set (push_options cx cy r rect)"
    unfolding push_options_def by (rule min_by_mem)
  have le: "push_key ?m \<le> push_key v" if "v \<in> set (push_options cx cy r rect)" for v
    using that unfolding push_options_def by (rule min_by_le)
  have kl: "push_key (push_left cx r rect) = \<bar>r - \<bar>cx - real_of_int (rect_left rect)\<bar>\<bar>"
    and kr: "push_key (push_right cx r rect) = \<bar>r - \<bar>real_of_int (rect_right rect) - cx\<bar>\<bar>"
    and ku: "push_key (push_up cy r rect) = \<bar>r - \<bar>cy - real_of_int (rect_top rect)\<bar>\<bar>"
    and kd: "push_key (push_down cy r rect) = \<bar>r - \<bar>real_of_int (rect_bottom rect) - cy\<bar>\<bar>"
    by (simp_all add: push_key_def push_left_def push_right_def push_up_def push_down_def)
  have l: "push_key ?m \<le> \<bar>r - \<bar>cx - real_of_int (rect_left rect)\<bar>\<bar>"
    using le [of "push_left cx r rect"] by (simp only: kl push_options_def list.set_intros)
  have r: "push_key ?m \<le> \<bar>r - \<bar>real_of_int (rect_right rect) - cx\<bar>\<bar>"
    using le [of "push_right cx r rect"] by (simp only: kr push_options_def list.set_intros)
  have u: "push_key ?m \<le> \<bar>r - \<bar>cy - real_of_int (rect_top rect)\<bar>\<bar>"
    using le [of "push_up cy r rect"] by (simp only: ku push_options_def list.set_intros)
  have d: "push_key ?m \<le> \<bar>r - \<bar>real_of_int (rect_bottom rect) - cy\<bar>\<bar>"
    using le [of "push_down cy r rect"] by (simp only: kd push_options_def list.set_intros)
  have mem': "?m \<in>
           {(- (r - \<bar>cx - real_of_int (rect_left rect)\<bar>), 0),
            (r - \<bar>real_of_int (rect_right rect) - cx\<bar>, 0),
            (0, - (r - \<bar>cy - real_of_int (rect_top rect)\<bar>)),
            (0, r - \<bar>real_of_int (rect_bottom rect) - cy\<bar>)}"
    using mem unfolding push_options_def push_left_def push_right_def push_up_def push_down_def
      Let_def
    by (simp only: list.set)
  have key: "\<bar>fst ?m\<bar> + \<bar>snd ?m\<bar> = push_key ?m"
    by (simp only: push_key_def)
  show ?thesis
    unfolding circle_rect_overlap_degenerate [OF assms] key
    by (intro conjI mem' l r u d)
qed

lemma corner_pushes:
  "circle_rect_overlap 100 200 22 (mk_rect 100 200 50 50) = (- 22, 0)"
  "circle_rect_overlap 150 250 22 (mk_rect 100 200 50 50) = (22, 0)"
  by (simp_all add: circle_rect_overlap_def closest_x_def closest_y_def rect_edges mk_rect_def
       push_left_def push_right_def push_up_def push_down_def push_key_def Let_def)

text \<open>
  C5 (the code departs from the claim). The circle of radius 22 has its center at
  \<open>(100, 225)\<close>, the middle of the left edge of the rectangle \<open>Rect(100, 200, 50, 50)\<close>, so
  the center is on the rectangle and the degenerate branch runs. The four candidates of
  lines 86-91 are \<open>(-22, 0)\<close>, \<open>(-28, 0)\<close>, \<open>(0, 3)\<close> and \<open>(0, -3)\<close>: the one commented
  \<open>push up\<close> points down and the one commented \<open>push right\<close> points left, because each is
  \<open>r\<close> minus the distance to its edge. The code returns \<open>(0, 3)\<close>, which slides the center
  along the edge to \<open>(100, 228)\<close>, still on the rectangle. The push to the left by 22,
  toward the edge the center lies on, is the one that takes the circle out: at
  \<open>(78, 225)\<close> the center is off the rectangle and no push-out is left.
\<close>

theorem degenerate_push_stays_on_edge:
  "degenerate 100 225 (mk_rect 100 200 50 50)
   \<and> push_options 100 225 22 (mk_rect 100 200 50 50) = [(- 22, 0), (- 28, 0), (0, 3), (0, - 3)]
   \<and> circle_rect_overlap 100 225 22 (mk_rect 100 200 50 50) = (0, 3)
   \<and> degenerate (100 + 0) (225 + 3) (mk_rect 100 200 50 50)
   \<and> \<not> degenerate (100 + (- 22)) (225 + 0) (mk_rect 100 200 50 50)
   \<and> circle_rect_overlap (100 + (- 22)) (225 + 0) 22 (mk_rect 100 200 50 50) = (0, 0)"
proof -
  have root: "sqrt 484 = 22"
    by (rule real_sqrt_unique) simp_all
  have opts: "push_options 100 225 22 (mk_rect 100 200 50 50)
                = [(- 22, 0), (- 28, 0), (0, 3), (0, - 3)]"
    by (simp add: push_options_def push_left_def push_right_def push_up_def push_down_def
          rect_edges mk_rect_def)
  have res: "circle_rect_overlap 100 225 22 (mk_rect 100 200 50 50) = (0, 3)"
    by (simp add: circle_rect_overlap_def closest_x_def closest_y_def rect_edges mk_rect_def
          push_left_def push_right_def push_up_def push_down_def push_key_def Let_def)
  have on: "degenerate 100 225 (mk_rect 100 200 50 50)"
           "degenerate (100 + 0) (225 + 3) (mk_rect 100 200 50 50)"
    by (simp_all add: degenerate_def closest_x_def closest_y_def rect_edges mk_rect_def)
  have off: "\<not> degenerate (100 + (- 22)) (225 + 0) (mk_rect 100 200 50 50)"
    by (simp add: degenerate_def closest_x_def closest_y_def rect_edges mk_rect_def)
  have out: "circle_rect_overlap (100 + (- 22)) (225 + 0) 22 (mk_rect 100 200 50 50) = (0, 0)"
    by (simp add: circle_rect_overlap_def closest_x_def closest_y_def rect_edges mk_rect_def
          Let_def root)
  from on opts res off out show ?thesis
    by (simp only: simp_thms)
qed

lemma circle_rect_overlap_far:
  assumes "(cx - closest_x cx rect) * (cx - closest_x cx rect)
         + (cy - closest_y cy rect) * (cy - closest_y cy rect) > r * r"
  shows "circle_rect_overlap cx cy r rect = (0, 0)"
  using assms by (simp add: circle_rect_overlap_def Let_def)

lemma circle_rect_overlap_near:
  assumes "(cx - closest_x cx rect) * (cx - closest_x cx rect)
         + (cy - closest_y cy rect) * (cy - closest_y cy rect) = dsq"
      and "dsq \<le> r * r" "dsq \<noteq> 0"
  shows "circle_rect_overlap cx cy r rect =
          ((cx - closest_x cx rect) / sqrt dsq * (r - sqrt dsq),
           (cy - closest_y cy rect) / sqrt dsq * (r - sqrt dsq))"
  using assms by (simp add: circle_rect_overlap_def Let_def not_less)

text \<open>
  Moving a point away from its closest point of an interval, along the same line, does
  not change the closest point.
\<close>

lemma clamp_scale:
  fixes lo hi c t :: real
  assumes "lo \<le> hi" "1 \<le> t"
  shows "max lo (min (max lo (min c hi) + (c - max lo (min c hi)) * t) hi) = max lo (min c hi)"
proof -
  consider "c < lo" | "hi < c" | "lo \<le> c \<and> c \<le> hi" by linarith
  then show ?thesis
  proof cases
    case 1
    define z where "z = (c - lo) * t"
    have "(c - lo) * t \<le> (c - lo) * 1"
      using 1 assms(2) by (intro mult_left_mono_neg) simp_all
    then have "z \<le> c - lo" by (simp add: z_def)
    with 1 assms(1) have "max lo (min (lo + z) hi) = lo" by (simp add: max_def min_def)
    with 1 assms(1) show ?thesis by (simp add: max_def min_def z_def)
  next
    case 2
    define z where "z = (c - hi) * t"
    have "(c - hi) * 1 \<le> (c - hi) * t"
      using 2 assms(2) by (intro mult_left_mono) simp_all
    then have "c - hi \<le> z" by (simp add: z_def)
    with 2 assms(1) have "max lo (min (hi + z) hi) = hi" by (simp add: max_def min_def)
    with 2 assms(1) show ?thesis by (simp add: max_def min_def z_def)
  next
    case 3
    then show ?thesis by (simp add: max_def min_def)
  qed
qed

lemma closest_x_scale:
  assumes "0 \<le> rect_w rect" "1 \<le> t"
  shows "closest_x (closest_x cx rect + (cx - closest_x cx rect) * t) rect = closest_x cx rect"
  unfolding closest_x_def using assms by (intro clamp_scale) (simp_all add: rect_edges)

lemma closest_y_scale:
  assumes "0 \<le> rect_h rect" "1 \<le> t"
  shows "closest_y (closest_y cy rect + (cy - closest_y cy rect) * t) rect = closest_y cy rect"
  unfolding closest_y_def using assms by (intro clamp_scale) (simp_all add: rect_edges)

text \<open>
  One push-out separates the circle from the rectangle it was computed for, as long as
  the center was not on or inside the rectangle: the pushed center is at distance \<open>r\<close>
  from the same closest point, and the overlap computed there is zero.
\<close>

lemma push_out_resolves:
  assumes w: "0 \<le> rect_w rect" and h: "0 \<le> rect_h rect" and r: "0 \<le> r"
      and out: "\<not> degenerate cx cy rect"
  shows "circle_rect_overlap (cx + fst (circle_rect_overlap cx cy r rect))
           (cy + snd (circle_rect_overlap cx cy r rect)) r rect = (0, 0)"
proof -
  define dx where "dx = cx - closest_x cx rect"
  define dy where "dy = cy - closest_y cy rect"
  define dsq where "dsq = dx * dx + dy * dy"
  have dsq_pos: "0 < dsq"
    using out unfolding dsq_def dx_def dy_def degenerate_def
    by (auto simp: sum_squares_gt_zero_iff)
  show ?thesis
  proof (cases "dsq > r * r")
    case True
    then have "circle_rect_overlap cx cy r rect = (0, 0)"
      unfolding dsq_def dx_def dy_def by (rule circle_rect_overlap_far)
    then show ?thesis by simp
  next
    case False
    then have le: "dsq \<le> r * r" by simp
    define dist where "dist = sqrt dsq"
    have dist_pos: "0 < dist" using dsq_pos by (simp add: dist_def)
    have dist_sq: "dist * dist = dsq" using dsq_pos by (simp add: dist_def)
    have "sqrt dsq \<le> sqrt (r * r)" by (rule real_sqrt_le_mono [OF le])
    then have dist_le: "dist \<le> r" using r by (simp add: dist_def)
    then have r_pos: "0 < r" using dist_pos by linarith
    define t where "t = r / dist"
    have t1: "1 \<le> t" using dist_le dist_pos by (simp add: t_def)
    have dsq_ne: "dsq \<noteq> 0" using dsq_pos by simp
    have p: "circle_rect_overlap cx cy r rect = (dx / dist * (r - dist), dy / dist * (r - dist))"
      unfolding dx_def dy_def dist_def
      by (rule circle_rect_overlap_near [OF _ le dsq_ne]) (simp add: dsq_def dx_def dy_def)
    have nx: "cx + dx / dist * (r - dist) = closest_x cx rect + (cx - closest_x cx rect) * t"
      using dist_pos by (simp add: dx_def t_def field_simps)
    have ny: "cy + dy / dist * (r - dist) = closest_y cy rect + (cy - closest_y cy rect) * t"
      using dist_pos by (simp add: dy_def t_def field_simps)
    let ?cx = "closest_x cx rect + (cx - closest_x cx rect) * t"
    let ?cy = "closest_y cy rect + (cy - closest_y cy rect) * t"
    have qx: "?cx - closest_x ?cx rect = dx * t"
      by (simp add: closest_x_scale [OF w t1] dx_def)
    have qy: "?cy - closest_y ?cy rect = dy * t"
      by (simp add: closest_y_scale [OF h t1] dy_def)
    have "dx * t * (dx * t) + dy * t * (dy * t) = (t * t) * dsq"
      by (simp add: dsq_def algebra_simps)
    also have "\<dots> = r * r"
      using dist_pos by (simp add: t_def dist_sq [symmetric])
    finally have new_sq: "(?cx - closest_x ?cx rect) * (?cx - closest_x ?cx rect)
                + (?cy - closest_y ?cy rect) * (?cy - closest_y ?cy rect) = r * r"
      by (simp only: qx qy)
    have "circle_rect_overlap ?cx ?cy r rect =
            ((?cx - closest_x ?cx rect) / sqrt (r * r) * (r - sqrt (r * r)),
             (?cy - closest_y ?cy rect) / sqrt (r * r) * (r - sqrt (r * r)))"
      using r_pos by (intro circle_rect_overlap_near [OF new_sq]) simp_all
    also have "\<dots> = (0, 0)"
      using r_pos by simp
    finally have z: "circle_rect_overlap ?cx ?cy r rect = (0, 0)" .
    show ?thesis
      unfolding p fst_conv snd_conv nx ny by (rule z)
  qed
qed

section \<open>The contact normal\<close>

lemma hypot_axis: "hypot a 0 = \<bar>a\<bar>"
  by (simp add: hypot_def)

lemma hypot_positive: "px \<noteq> 0 \<or> py \<noteq> 0 \<Longrightarrow> 0 < hypot px py"
  unfolding hypot_def by (auto simp: sum_squares_gt_zero_iff intro!: real_sqrt_gt_zero)

lemma contact_normal_unit:
  "fst (contact_normal px py) * fst (contact_normal px py)
   + snd (contact_normal px py) * snd (contact_normal px py) = 1"
proof (cases "hypot px py = 0")
  case True
  then show ?thesis by (simp add: contact_normal_def)
next
  case False
  have sq: "hypot px py * hypot px py = px * px + py * py"
    by (simp add: hypot_def)
  have "px / hypot px py * (px / hypot px py) + py / hypot px py * (py / hypot px py)
          = (px * px + py * py) / (hypot px py * hypot px py)"
    by (simp add: add_divide_distrib)
  also have "\<dots> = 1"
    using False by (simp add: sq [symmetric])
  finally show ?thesis
    using False by (simp add: contact_normal_def Let_def)
qed

text \<open>
  C10. The body of the ball-box response runs under the guard \<open>if px or py\<close> of line 226
  (in \<open>bounce_box\<close>: \<open>fst p \<noteq> 0 \<or> snd p \<noteq> 0\<close>). For every push vector with a nonzero
  component its length \<open>hypot px py\<close> is positive, so the test \<open>nlen == 0\<close> fails and the
  contact normal is the normalised push vector, never the default \<open>(0, -1)\<close>.
\<close>

theorem default_normal_unreachable:
  assumes "px \<noteq> 0 \<or> py \<noteq> 0"
  shows "0 < hypot px py
       \<and> contact_normal px py = (px / hypot px py, py / hypot px py)"
  using hypot_positive [OF assms] by (simp add: contact_normal_def Let_def)

theorem default_normal_unreachable_witness:
  "hypot 3 4 = 5 \<and> contact_normal 3 4 = (3 / 5, 4 / 5)"
proof -
  have len: "hypot 3 4 = 5"
    unfolding hypot_def by (rule real_sqrt_unique) simp_all
  have nz: "(3::real) \<noteq> 0 \<or> (4::real) \<noteq> 0" by simp
  from default_normal_unreachable [OF nz] show ?thesis
    by (simp add: len)
qed

section \<open>Speed across a bounce\<close>

lemma speed_axis: "speed (a, 0) = \<bar>a\<bar>"
  by (simp add: speed_def)

lemma reflect_square:
  fixes vx vy nx ny :: real
  assumes "nx * nx + ny * ny = 1"
  shows "(vx - 2 * (vx * nx + vy * ny) * nx) * (vx - 2 * (vx * nx + vy * ny) * nx)
       + (vy - 2 * (vx * nx + vy * ny) * ny) * (vy - 2 * (vx * nx + vy * ny) * ny)
       = vx * vx + vy * vy"
proof -
  define dot where "dot = vx * nx + vy * ny"
  have "(vx - 2 * dot * nx) * (vx - 2 * dot * nx) + (vy - 2 * dot * ny) * (vy - 2 * dot * ny)
      = vx * vx + vy * vy - 4 * dot * (vx * nx + vy * ny) + 4 * dot * dot * (nx * nx + ny * ny)"
    by (simp add: algebra_simps)
  also have "\<dots> = vx * vx + vy * vy"
    by (simp add: assms dot_def)
  finally show ?thesis
    by (simp add: dot_def)
qed

lemma reflect_speed:
  assumes "nx * nx + ny * ny = 1" "0 \<le> d"
  shows "speed (reflect_velocity_over_normal vx vy nx ny d) = d * speed (vx, vy)"
proof -
  let ?rx = "vx - 2 * (vx * nx + vy * ny) * nx"
  let ?ry = "vy - 2 * (vx * nx + vy * ny) * ny"
  have "?rx * d * (?rx * d) + ?ry * d * (?ry * d) = (d * d) * (?rx * ?rx + ?ry * ?ry)"
    by (simp add: algebra_simps)
  also have "\<dots> = (d * d) * (vx * vx + vy * vy)"
    by (simp only: reflect_square [OF assms(1)])
  finally have "speed (reflect_velocity_over_normal vx vy nx ny d)
                  = sqrt ((d * d) * (vx * vx + vy * vy))"
    by (simp add: speed_def reflect_velocity_over_normal_def Let_def)
  also have "\<dots> = d * sqrt (vx * vx + vy * vy)"
    using assms(2) by (simp add: real_sqrt_mult)
  finally show ?thesis
    by (simp add: speed_def)
qed

lemma bounce_box_miss:
  assumes "circle_rect_overlap bx by (real_of_int BALL_RADIUS) rect = (0, 0)"
  shows "bounce_box ((bx, by), v) rect mvx mvy = ((bx, by), v)"
  using assms by (cases v) (simp add: bounce_box_def)

lemma bounce_box_hit:
  assumes "circle_rect_overlap bx by (real_of_int BALL_RADIUS) rect = (px, py)"
      and "px \<noteq> 0 \<or> py \<noteq> 0"
  shows "bounce_box ((bx, by), (vx, vy)) rect mvx mvy =
           ((bx + px, by + py),
            (fst (reflect_velocity_over_normal (vx - mvx) (vy - mvy)
                    (fst (contact_normal px py)) (snd (contact_normal px py)) BALL_BOUNCE_DAMP) + mvx,
             snd (reflect_velocity_over_normal (vx - mvx) (vy - mvy)
                    (fst (contact_normal px py)) (snd (contact_normal px py)) BALL_BOUNCE_DAMP) + mvy))"
  using assms by (simp add: bounce_box_def Let_def)

lemma bounce_box_relative_speed:
  assumes "circle_rect_overlap (fst (fst b)) (snd (fst b)) (real_of_int BALL_RADIUS) rect \<noteq> (0, 0)"
  shows "speed (fst (snd (bounce_box b rect mvx mvy)) - mvx, snd (snd (bounce_box b rect mvx mvy)) - mvy)
           = BALL_BOUNCE_DAMP * speed (fst (snd b) - mvx, snd (snd b) - mvy)"
proof -
  obtain bx "by" vx vy where b: "b = ((bx, by), (vx, vy))"
    by (metis surj_pair)
  obtain px py where p: "circle_rect_overlap bx by (real_of_int BALL_RADIUS) rect = (px, py)"
    by (metis surj_pair)
  with assms b have nz: "px \<noteq> 0 \<or> py \<noteq> 0" by auto
  have d: "0 \<le> BALL_BOUNCE_DAMP" by (simp add: BALL_BOUNCE_DAMP_def)
  show ?thesis
    unfolding b bounce_box_hit [OF p nz]
    using reflect_speed [OF contact_normal_unit [of px py] d, of "vx - mvx" "vy - mvy"]
    by simp
qed

lemma wall_low_abs: "\<bar>snd (wall_low (p, v))\<bar> \<le> \<bar>v\<bar>"
  by (simp add: wall_low_def BALL_BOUNCE_DAMP_def abs_mult)

lemma wall_high_abs: "\<bar>snd (wall_high limit (p, v))\<bar> \<le> \<bar>v\<bar>"
  by (simp add: wall_high_def BALL_BOUNCE_DAMP_def abs_mult)

lemma wall_axis_abs: "\<bar>snd (wall_high limit (wall_low (p, v)))\<bar> \<le> \<bar>v\<bar>"
proof -
  obtain p' v' where w: "wall_low (p, v) = (p', v')" by (metis surj_pair)
  have "\<bar>v'\<bar> \<le> \<bar>v\<bar>" using wall_low_abs [of p v] w by simp
  moreover have "\<bar>snd (wall_high limit (p', v'))\<bar> \<le> \<bar>v'\<bar>" by (rule wall_high_abs)
  ultimately show ?thesis by (simp add: w)
qed

lemma wall_axis_strict:
  assumes "fst (wall_high limit (wall_low (p, v))) \<noteq> p" "v \<noteq> 0"
  shows "\<bar>snd (wall_high limit (wall_low (p, v)))\<bar> < \<bar>v\<bar>"
  using assms
  by (auto simp: wall_low_def wall_high_def BALL_BOUNCE_DAMP_def abs_mult split: if_splits)

lemma speed_mono:
  assumes "\<bar>a'\<bar> \<le> \<bar>a\<bar>" "\<bar>b'\<bar> \<le> \<bar>b\<bar>"
  shows "speed (a', b') \<le> speed (a, b)"
proof -
  have "a' * a' \<le> a * a" using assms(1) by (metis abs_le_square_iff power2_eq_square)
  moreover have "b' * b' \<le> b * b" using assms(2) by (metis abs_le_square_iff power2_eq_square)
  ultimately show ?thesis by (simp add: speed_def add_mono)
qed

lemma speed_strict1:
  assumes "\<bar>a'\<bar> < \<bar>a\<bar>" "\<bar>b'\<bar> \<le> \<bar>b\<bar>"
  shows "speed (a', b') < speed (a, b)"
proof -
  have "a' * a' < a * a" using assms(1) by (metis abs_mult_less abs_mult_self_eq)
  moreover have "b' * b' \<le> b * b" using assms(2) by (metis abs_le_square_iff power2_eq_square)
  ultimately show ?thesis by (simp add: speed_def add_less_le_mono)
qed

lemma speed_strict2:
  assumes "\<bar>a'\<bar> \<le> \<bar>a\<bar>" "\<bar>b'\<bar> < \<bar>b\<bar>"
  shows "speed (a', b') < speed (a, b)"
  using speed_strict1 [OF assms(2) assms(1)] by (simp add: speed_def add.commute)

lemma bounce_walls_speed: "speed (snd (bounce_walls b)) \<le> speed (snd b)"
proof -
  obtain px py vx vy where b: "b = ((px, py), (vx, vy))" by (metis surj_pair)
  show ?thesis
    unfolding b by (simp add: bounce_walls_def Let_def speed_mono wall_axis_abs)
qed

lemma bounce_walls_speed_strict:
  assumes "(fst (fst (bounce_walls b)) \<noteq> fst (fst b) \<and> fst (snd b) \<noteq> 0)
         \<or> (snd (fst (bounce_walls b)) \<noteq> snd (fst b) \<and> snd (snd b) \<noteq> 0)"
  shows "speed (snd (bounce_walls b)) < speed (snd b)"
proof -
  obtain px py vx vy where b: "b = ((px, py), (vx, vy))" by (metis surj_pair)
  from assms show ?thesis
    unfolding b
    by (auto simp: bounce_walls_def Let_def
          intro: speed_strict1 speed_strict2 wall_axis_abs wall_axis_strict)
qed

section \<open>One tick\<close>

lemma tick_ball:
  "(ball_pos (tick s k dt), ball_vel (tick s k dt)) =
     bounce_box (ball_after_box1 s k dt) (box2 (move_boxes s k dt))
       (fst (direction (K_d k) (K_a k) (K_s k) (K_w k)) * real_of_int SPEED)
       (snd (direction (K_d k) (K_a k) (K_s k) (K_w k)) * real_of_int SPEED)"
  by (simp add: tick_def ball_after_box1_def ball_after_walls_def Let_def)

lemma sqrt_100: "sqrt 100 = 10"
  by (rule real_sqrt_unique) simp_all

lemma sqrt_225: "sqrt 225 = 15"
  by (rule real_sqrt_unique) simp_all

lemma sqrt_324: "sqrt 324 = 18"
  by (rule real_sqrt_unique) simp_all

subsection \<open>The left wall\<close>

lemma initial_boxes:
  "box1 initial = mk_rect 758 335 50 50" "box2 initial = mk_rect 227 335 50 50"
  "x1 initial = 2275 / 3" "y1 initial = 335" "x2 initial = 455 / 2" "y2 initial = 335"
  by (simp_all add: initial_def Let_def WIDTH_def HEIGHT_def BOX_SIZE_def py_int_def mk_rect_def)

lemma initial_idle_boxes:
  "box1 (move_boxes (initial\<lparr>ball_pos := p, ball_vel := v\<rparr>) no_keys dt) = mk_rect 758 335 50 50"
  "box2 (move_boxes (initial\<lparr>ball_pos := p, ball_vel := v\<rparr>) no_keys dt) = mk_rect 227 335 50 50"
  by (simp_all add: move_boxes_def no_keys_def direction_values move_clamp_def initial_boxes
       WIDTH_def HEIGHT_def BOX_SIZE_def py_int_def set_topleft_def colliderect_def mk_rect_def
       Let_def)

lemma left_wall_ball:
  assumes "0 \<le> dt"
  shows "bounce_walls (integrate_ball ((5, 300), (- 100, 0)) dt)
           = ((22, 300), (100 * BALL_FRICTION * BALL_BOUNCE_DAMP, 0))"
  using assms
  by (simp add: bounce_walls_def integrate_ball_def wall_low_def wall_high_def Let_def
       BALL_RADIUS_def WIDTH_def HEIGHT_def BALL_FRICTION_def BALL_BOUNCE_DAMP_def)

lemma left_wall_far:
  "circle_rect_overlap 22 300 (real_of_int BALL_RADIUS) (mk_rect 758 335 50 50) = (0, 0)"
  "circle_rect_overlap 22 300 (real_of_int BALL_RADIUS) (mk_rect 227 335 50 50) = (0, 0)"
  by (simp_all add: circle_rect_overlap_def closest_x_def closest_y_def rect_edges mk_rect_def
       BALL_RADIUS_def Let_def)

text \<open>
  C4, as stated, fails. From the start position of the boxes, with no key pressed and a
  tick of 17 ms, the ball at \<open>(5, 300)\<close> with velocity \<open>(-100, 0)\<close> ends with center
  \<open>x = 22\<close>, but its x-velocity is \<open>94.525\<close>, not \<open>100 * BALL_BOUNCE_DAMP = 95\<close>: line
  204 applies the friction factor before the wall test of line 207.
\<close>

theorem left_wall_friction_first:
  "fst (ball_pos (tick (initial\<lparr>ball_pos := (5, 300), ball_vel := (- 100, 0)\<rparr>) no_keys (17 / 1000))) = 22
   \<and> fst (ball_vel (tick (initial\<lparr>ball_pos := (5, 300), ball_vel := (- 100, 0)\<rparr>) no_keys (17 / 1000)))
        = 94525 / 1000
   \<and> fst (ball_vel (tick (initial\<lparr>ball_pos := (5, 300), ball_vel := (- 100, 0)\<rparr>) no_keys (17 / 1000)))
        \<noteq> 100 * BALL_BOUNCE_DAMP"
  by (simp add: tick_def Let_def left_wall_ball bounce_box_miss initial_idle_boxes left_wall_far
        BALL_FRICTION_def BALL_BOUNCE_DAMP_def)

text \<open>
  C4, amended. For every tick of \<open>dt \<ge> 0\<close> seconds that starts with the ball at
  \<open>(5, 300)\<close> and velocity \<open>(-100, 0)\<close>, whatever the keys and the boxes, provided the
  ball at its clamped position \<open>(22, 300)\<close> touches neither box: the center ends at
  \<open>x = 22\<close> and the x-velocity is \<open>100 * BALL_FRICTION * BALL_BOUNCE_DAMP\<close>.
\<close>

theorem left_wall_scenario:
  assumes "0 \<le> dt" "ball_pos s = (5, 300)" "ball_vel s = (- 100, 0)"
      and "circle_rect_overlap 22 300 (real_of_int BALL_RADIUS) (box1 (move_boxes s k dt)) = (0, 0)"
      and "circle_rect_overlap 22 300 (real_of_int BALL_RADIUS) (box2 (move_boxes s k dt)) = (0, 0)"
  shows "fst (ball_pos (tick s k dt)) = 22
       \<and> fst (ball_vel (tick s k dt)) = 100 * BALL_FRICTION * BALL_BOUNCE_DAMP"
  using assms(2-5)
  by (simp add: tick_def Let_def left_wall_ball [OF assms(1)] bounce_box_miss)

theorem left_wall_scenario_witness:
  "fst (ball_pos (tick (initial\<lparr>ball_pos := (5, 300), ball_vel := (- 100, 0)\<rparr>) no_keys (16 / 1000))) = 22
   \<and> fst (ball_vel (tick (initial\<lparr>ball_pos := (5, 300), ball_vel := (- 100, 0)\<rparr>) no_keys (16 / 1000)))
        = 100 * BALL_FRICTION * BALL_BOUNCE_DAMP"
proof -
  let ?s = "initial\<lparr>ball_pos := (5, 300), ball_vel := (- 100, 0)\<rparr>"
  have dt: "(0::real) \<le> 16 / 1000" by simp
  have p: "ball_pos ?s = (5, 300)" and v: "ball_vel ?s = (- 100, 0)" by simp_all
  have f1: "circle_rect_overlap 22 300 (real_of_int BALL_RADIUS)
              (box1 (move_boxes ?s no_keys (16 / 1000))) = (0, 0)"
    by (simp only: initial_idle_boxes left_wall_far)
  have f2: "circle_rect_overlap 22 300 (real_of_int BALL_RADIUS)
              (box2 (move_boxes ?s no_keys (16 / 1000))) = (0, 0)"
    by (simp only: initial_idle_boxes left_wall_far)
  show ?thesis
    by (rule left_wall_scenario [OF dt p v f1 f2])
qed

subsection \<open>A box pushed into the ball\<close>

lemma squeeze_boxes:
  "box1 (move_boxes (boxes_at 100 100 200 100 p v) a_key (1 / 50)) = mk_rect 100 100 50 50"
  "box2 (move_boxes (boxes_at 100 100 200 100 p v) a_key (1 / 50)) = mk_rect 190 100 50 50"
  by (simp_all add: move_boxes_def boxes_at_def key_defs direction_values move_clamp_def
       WIDTH_def HEIGHT_def BOX_SIZE_def SPEED_def py_int_def set_topleft_def
       colliderect_def mk_rect_def Let_def)

lemma squeeze_walls:
  "ball_after_walls (boxes_at 100 100 200 100 (174, 125) (50, 0)) (1 / 50)
     = ((175, 125), (50 * BALL_FRICTION, 0))"
  by (simp add: ball_after_walls_def boxes_at_def bounce_walls_def integrate_ball_def
       wall_low_def wall_high_def Let_def BALL_RADIUS_def WIDTH_def HEIGHT_def)

lemma squeeze_overlaps:
  "circle_rect_overlap 174 125 (real_of_int BALL_RADIUS) (mk_rect 100 100 50 50) = (0, 0)"
  "circle_rect_overlap 174 125 (real_of_int BALL_RADIUS) (mk_rect 200 100 50 50) = (0, 0)"
  "circle_rect_overlap 175 125 (real_of_int BALL_RADIUS) (mk_rect 100 100 50 50) = (0, 0)"
  "circle_rect_overlap 175 125 (real_of_int BALL_RADIUS) (mk_rect 190 100 50 50) = (- 7, 0)"
  "circle_rect_overlap 168 125 (real_of_int BALL_RADIUS) (mk_rect 100 100 50 50) = (4, 0)"
  by (simp_all add: circle_rect_overlap_def closest_x_def closest_y_def rect_edges mk_rect_def
       BALL_RADIUS_def Let_def sqrt_225 sqrt_324)

lemma squeeze_box1:
  "ball_after_box1 (boxes_at 100 100 200 100 (174, 125) (50, 0)) a_key (1 / 50)
     = ((175, 125), (50 * BALL_FRICTION, 0))"
  by (simp add: ball_after_box1_def squeeze_walls squeeze_boxes squeeze_overlaps bounce_box_miss
        Let_def)

lemma squeeze_tick:
  "ball_pos (tick (boxes_at 100 100 200 100 (174, 125) (50, 0)) a_key (1 / 50)) = (168, 125)"
  "ball_vel (tick (boxes_at 100 100 200 100 (174, 125) (50, 0)) a_key (1 / 50))
     = (- (50 * BALL_FRICTION + 500) * BALL_BOUNCE_DAMP - 500, 0)"
proof -
  have "(ball_pos (tick (boxes_at 100 100 200 100 (174, 125) (50, 0)) a_key (1 / 50)),
         ball_vel (tick (boxes_at 100 100 200 100 (174, 125) (50, 0)) a_key (1 / 50)))
        = ((168, 125), (- (50 * BALL_FRICTION + 500) * BALL_BOUNCE_DAMP - 500, 0))"
    unfolding tick_ball squeeze_box1 squeeze_boxes
    by (simp add: bounce_box_def squeeze_overlaps contact_normal_def hypot_axis
          reflect_velocity_over_normal_def key_defs direction_values SPEED_def Let_def)
  then show
    "ball_pos (tick (boxes_at 100 100 200 100 (174, 125) (50, 0)) a_key (1 / 50)) = (168, 125)"
    "ball_vel (tick (boxes_at 100 100 200 100 (174, 125) (50, 0)) a_key (1 / 50))
     = (- (50 * BALL_FRICTION + 500) * BALL_BOUNCE_DAMP - 500, 0)"
    by simp_all
qed

lemma squeeze_start:
  "box1 (boxes_at 100 100 200 100 p v) = mk_rect 100 100 50 50"
  "box2 (boxes_at 100 100 200 100 p v) = mk_rect 200 100 50 50"
  "ball_pos (boxes_at 100 100 200 100 p v) = p"
  "ball_vel (boxes_at 100 100 200 100 p v) = v"
  by (simp_all add: boxes_at_def BOX_SIZE_def)

text \<open>
  C2, as stated, fails. The boxes are at \<open>(100, 100)\<close> and \<open>(200, 100)\<close>, the ball at
  \<open>(174, 125)\<close> touches neither, and box 2 is driven left into the ball. The ball is
  clear of box 1 when box 1 is tested; the push out of box 2 then moves its center to
  \<open>(168, 125)\<close>, 18 pixels from box 1, and the tick ends with a push-out of \<open>(4, 0)\<close>
  against box 1 still due.
\<close>

theorem squeeze_overlap_remains:
  "\<not> colliderect (box1 (boxes_at 100 100 200 100 (174, 125) (50, 0)))
                 (box2 (boxes_at 100 100 200 100 (174, 125) (50, 0)))
   \<and> circle_rect_overlap 174 125 (real_of_int BALL_RADIUS)
        (box1 (boxes_at 100 100 200 100 (174, 125) (50, 0))) = (0, 0)
   \<and> circle_rect_overlap 174 125 (real_of_int BALL_RADIUS)
        (box2 (boxes_at 100 100 200 100 (174, 125) (50, 0))) = (0, 0)
   \<and> circle_rect_overlap
        (fst (ball_pos (tick (boxes_at 100 100 200 100 (174, 125) (50, 0)) a_key (1 / 50))))
        (snd (ball_pos (tick (boxes_at 100 100 200 100 (174, 125) (50, 0)) a_key (1 / 50))))
        (real_of_int BALL_RADIUS)
        (box1 (tick (boxes_at 100 100 200 100 (174, 125) (50, 0)) a_key (1 / 50))) = (4, 0)"
proof -
  have "\<not> colliderect (mk_rect 100 100 50 50) (mk_rect 200 100 50 50)"
    by (simp add: colliderect_def mk_rect_def)
  then show ?thesis
    by (simp add: squeeze_start squeeze_tick tick_boxes squeeze_boxes squeeze_overlaps)
qed

text \<open>
  C3, as stated, fails for a moving box. The boxes are at \<open>(100, 100)\<close> and
  \<open>(200, 100)\<close>, the ball at \<open>(174, 125)\<close> has velocity \<open>(50, 0)\<close>, and box 2 is driven
  left at 500 pixels per second for 0.02 s. The ball meets box 2: the velocity relative to
  the box is reflected and damped, the velocity of the box is added back, and the speed
  of the ball rises from \<open>50\<close> to \<open>1022.2625\<close> although the damping factor is below 1.
\<close>

theorem moving_box_speeds_up:
  "BALL_BOUNCE_DAMP < 1
   \<and> speed (ball_vel (boxes_at 100 100 200 100 (174, 125) (50, 0))) = 50
   \<and> speed (ball_vel (tick (boxes_at 100 100 200 100 (174, 125) (50, 0)) a_key (1 / 50)))
        = 81781 / 80
   \<and> speed (ball_vel (boxes_at 100 100 200 100 (174, 125) (50, 0)))
        < speed (ball_vel (tick (boxes_at 100 100 200 100 (174, 125) (50, 0)) a_key (1 / 50)))"
  unfolding squeeze_tick squeeze_start speed_axis
  by (simp add: BALL_FRICTION_def BALL_BOUNCE_DAMP_def)

subsection \<open>Speed across wall and box bounces\<close>

text \<open>
  C3, amended. A reflection about a unit normal with damping \<open>d \<ge> 0\<close> multiplies the
  speed by exactly \<open>d\<close>: it decreases strictly for \<open>d < 1\<close> and a nonzero velocity, and is
  unchanged for \<open>d = 1\<close>. The wall checks never increase the speed of the ball, and
  decrease it strictly when a wall moved the ball on an axis whose velocity component is
  not zero. A ball-box bounce multiplies by \<open>BALL_BOUNCE_DAMP\<close> the speed of the ball
  relative to the velocity \<open>(mvx, mvy)\<close> of the box; for a box at rest that is the speed
  of the ball itself.
\<close>

theorem bounce_speed:
  "(nx * nx + ny * ny = 1 \<and> 0 \<le> d \<longrightarrow>
      speed (reflect_velocity_over_normal vx vy nx ny d) = d * speed (vx, vy))
   \<and> speed (snd (bounce_walls b)) \<le> speed (snd b)
   \<and> ((fst (fst (bounce_walls b)) \<noteq> fst (fst b) \<and> fst (snd b) \<noteq> 0)
        \<or> (snd (fst (bounce_walls b)) \<noteq> snd (fst b) \<and> snd (snd b) \<noteq> 0) \<longrightarrow>
      speed (snd (bounce_walls b)) < speed (snd b))
   \<and> (circle_rect_overlap (fst (fst c)) (snd (fst c)) (real_of_int BALL_RADIUS) rect \<noteq> (0, 0) \<longrightarrow>
      speed (fst (snd (bounce_box c rect mvx mvy)) - mvx, snd (snd (bounce_box c rect mvx mvy)) - mvy)
        = BALL_BOUNCE_DAMP * speed (fst (snd c) - mvx, snd (snd c) - mvy))"
  using reflect_speed [of nx ny d vx vy] bounce_walls_speed [of b]
        bounce_walls_speed_strict [of b] bounce_box_relative_speed [of c rect mvx mvy]
  by blast

lemma wall_example:
  "bounce_walls ((3, 300), (- 100, 40)) = ((22, 300), (100 * BALL_BOUNCE_DAMP, 40))"
  by (simp add: bounce_walls_def wall_low_def wall_high_def Let_def
       BALL_RADIUS_def WIDTH_def HEIGHT_def BALL_BOUNCE_DAMP_def)

theorem bounce_speed_witness:
  "speed (reflect_velocity_over_normal 3 4 1 0 (1 / 2)) = 1 / 2 * speed (3, 4)
   \<and> speed (snd (bounce_walls ((3, 300), (- 100, 40)))) < speed (- 100, 40)
   \<and> speed (fst (snd (bounce_box ((175, 125), (50, 0)) (mk_rect 190 100 50 50) (- 500) 0)) + 500,
             snd (snd (bounce_box ((175, 125), (50, 0)) (mk_rect 190 100 50 50) (- 500) 0)))
        = BALL_BOUNCE_DAMP * speed (550, 0)"
proof -
  note th = bounce_speed [of 1 0 "1 / 2" 3 4 "((3, 300), (- 100, 40))" "((175, 125), (50, 0))"
              "mk_rect 190 100 50 50" "- 500" 0]
  have h1: "(1::real) * 1 + 0 * 0 = 1 \<and> (0::real) \<le> 1 / 2" by simp
  have h2: "fst (fst (bounce_walls ((3, 300), (- 100, 40)))) \<noteq> fst (fst ((3::real, 300::real), (- 100::real, 40::real)))
            \<and> fst (snd ((3::real, 300::real), (- 100::real, 40::real))) \<noteq> 0"
    by (simp add: wall_example)
  have h3: "circle_rect_overlap (fst (fst ((175::real, 125::real), (50::real, 0::real))))
              (snd (fst ((175::real, 125::real), (50::real, 0::real)))) (real_of_int BALL_RADIUS)
              (mk_rect 190 100 50 50) \<noteq> (0, 0)"
    by (simp add: squeeze_overlaps)
  from th h1 have c1: "speed (reflect_velocity_over_normal 3 4 1 0 (1 / 2)) = 1 / 2 * speed (3, 4)"
    by blast
  from th h2 have c2: "speed (snd (bounce_walls ((3, 300), (- 100, 40))))
                        < speed (snd ((3::real, 300::real), (- 100::real, 40::real)))"
    by blast
  from th h3 have c3: "speed (fst (snd (bounce_box ((175, 125), (50, 0)) (mk_rect 190 100 50 50) (- 500) 0)) - (- 500),
             snd (snd (bounce_box ((175, 125), (50, 0)) (mk_rect 190 100 50 50) (- 500) 0)) - 0)
        = BALL_BOUNCE_DAMP * speed (fst (snd ((175::real, 125::real), (50::real, 0::real))) - (- 500),
             snd (snd ((175::real, 125::real), (50::real, 0::real))) - 0)"
    by blast
  from c1 c2 c3 show ?thesis by simp
qed

subsection \<open>The ball and the boxes at the end of a tick\<close>

lemma resolve_boxes_sizes:
  "rect_w (fst (resolve_boxes b1 b2 dx1 dy1 dx2 dy2)) = rect_w b1"
  "rect_h (fst (resolve_boxes b1 b2 dx1 dy1 dx2 dy2)) = rect_h b1"
  "rect_w (snd (resolve_boxes b1 b2 dx1 dy1 dx2 dy2)) = rect_w b2"
  "rect_h (snd (resolve_boxes b1 b2 dx1 dy1 dx2 dy2)) = rect_h b2"
  by (simp_all add: resolve_boxes_def Let_def set_right_def set_bottom_def set_topleft_def)

lemma move_boxes_sizes:
  "rect_w (box1 (move_boxes s k dt)) = rect_w (box1 s)"
  "rect_h (box1 (move_boxes s k dt)) = rect_h (box1 s)"
  "rect_w (box2 (move_boxes s k dt)) = rect_w (box2 s)"
  "rect_h (box2 (move_boxes s k dt)) = rect_h (box2 s)"
  by (simp_all add: move_boxes_def Let_def resolve_boxes_sizes set_topleft_def)

lemma bounce_box_clears:
  assumes "0 \<le> rect_w rect" "0 \<le> rect_h rect"
      and "\<not> degenerate (fst (fst b)) (snd (fst b)) rect"
  shows "circle_rect_overlap (fst (fst (bounce_box b rect mvx mvy)))
           (snd (fst (bounce_box b rect mvx mvy))) (real_of_int BALL_RADIUS) rect = (0, 0)"
proof -
  obtain bx "by" vx vy where b: "b = ((bx, by), (vx, vy))"
    by (metis surj_pair)
  obtain px py where p: "circle_rect_overlap bx by (real_of_int BALL_RADIUS) rect = (px, py)"
    by (metis surj_pair)
  have r: "0 \<le> real_of_int BALL_RADIUS" by (simp add: BALL_RADIUS_def)
  from assms(3) have out: "\<not> degenerate bx by rect" by (simp add: b)
  show ?thesis
  proof (cases "px \<noteq> 0 \<or> py \<noteq> 0")
    case True
    show ?thesis
      unfolding b bounce_box_hit [OF p True]
      using push_out_resolves [OF assms(1) assms(2) r out] by (simp add: p)
  next
    case False
    then have "circle_rect_overlap bx by (real_of_int BALL_RADIUS) rect = (0, 0)"
      using p by simp
    then show ?thesis
      unfolding b by (simp add: bounce_box_miss)
  qed
qed

text \<open>
  C2, amended. For boxes of non-negative width and height: at the end of a tick the
  push-out recomputed against box 2, the box tested last, is zero whenever the center of
  the ball was not on or inside box 2 when box 2 was tested; and the push-out recomputed
  against box 1 is zero whenever the center was not on or inside box 1 when box 1 was
  tested and the ball did not touch box 2 afterwards.
\<close>

theorem tick_clears_box:
  assumes "0 \<le> rect_w (box1 s)" "0 \<le> rect_h (box1 s)" "0 \<le> rect_w (box2 s)" "0 \<le> rect_h (box2 s)"
  shows "(\<not> degenerate (fst (fst (ball_after_box1 s k dt))) (snd (fst (ball_after_box1 s k dt)))
              (box2 (move_boxes s k dt)) \<longrightarrow>
          circle_rect_overlap (fst (ball_pos (tick s k dt))) (snd (ball_pos (tick s k dt)))
            (real_of_int BALL_RADIUS) (box2 (tick s k dt)) = (0, 0))
       \<and> (\<not> degenerate (fst (fst (ball_after_walls s dt))) (snd (fst (ball_after_walls s dt)))
              (box1 (move_boxes s k dt))
          \<and> circle_rect_overlap (fst (fst (ball_after_box1 s k dt))) (snd (fst (ball_after_box1 s k dt)))
              (real_of_int BALL_RADIUS) (box2 (move_boxes s k dt)) = (0, 0) \<longrightarrow>
          circle_rect_overlap (fst (ball_pos (tick s k dt))) (snd (ball_pos (tick s k dt)))
            (real_of_int BALL_RADIUS) (box1 (tick s k dt)) = (0, 0))"
proof (intro conjI impI)
  let ?d2 = "direction (K_d k) (K_a k) (K_s k) (K_w k)"
  let ?b2 = "bounce_box (ball_after_box1 s k dt) (box2 (move_boxes s k dt))
               (fst ?d2 * real_of_int SPEED) (snd ?d2 * real_of_int SPEED)"
  have pos: "ball_pos (tick s k dt) = fst ?b2"
    using tick_ball [of s k dt] by (metis fst_conv)
  {
    assume out: "\<not> degenerate (fst (fst (ball_after_box1 s k dt)))
                   (snd (fst (ball_after_box1 s k dt))) (box2 (move_boxes s k dt))"
    have w: "0 \<le> rect_w (box2 (move_boxes s k dt))" "0 \<le> rect_h (box2 (move_boxes s k dt))"
      using assms by (simp_all add: move_boxes_sizes)
    show "circle_rect_overlap (fst (ball_pos (tick s k dt))) (snd (ball_pos (tick s k dt)))
            (real_of_int BALL_RADIUS) (box2 (tick s k dt)) = (0, 0)"
      unfolding pos tick_boxes by (rule bounce_box_clears [OF w out])
  }
  {
    assume h: "\<not> degenerate (fst (fst (ball_after_walls s dt))) (snd (fst (ball_after_walls s dt)))
                  (box1 (move_boxes s k dt))
             \<and> circle_rect_overlap (fst (fst (ball_after_box1 s k dt)))
                  (snd (fst (ball_after_box1 s k dt)))
                  (real_of_int BALL_RADIUS) (box2 (move_boxes s k dt)) = (0, 0)"
    have w: "0 \<le> rect_w (box1 (move_boxes s k dt))" "0 \<le> rect_h (box1 (move_boxes s k dt))"
      using assms by (simp_all add: move_boxes_sizes)
    from h have miss: "?b2 = ball_after_box1 s k dt"
      using bounce_box_miss [of "fst (fst (ball_after_box1 s k dt))"
              "snd (fst (ball_after_box1 s k dt))" "box2 (move_boxes s k dt)"
              "snd (ball_after_box1 s k dt)"]
      by simp
    from h have out: "\<not> degenerate (fst (fst (ball_after_walls s dt)))
                        (snd (fst (ball_after_walls s dt))) (box1 (move_boxes s k dt))"
      by simp
    have pos': "ball_pos (tick s k dt) = fst (ball_after_box1 s k dt)"
      by (simp only: pos miss)
    show "circle_rect_overlap (fst (ball_pos (tick s k dt))) (snd (ball_pos (tick s k dt)))
            (real_of_int BALL_RADIUS) (box1 (tick s k dt)) = (0, 0)"
      unfolding pos' tick_boxes ball_after_box1_def Let_def
      by (rule bounce_box_clears [OF w out])
  }
qed

lemma boxes_at_sizes:
  "0 \<le> rect_w (box1 (boxes_at a b c d p v))" "0 \<le> rect_h (box1 (boxes_at a b c d p v))"
  "0 \<le> rect_w (box2 (boxes_at a b c d p v))" "0 \<le> rect_h (box2 (boxes_at a b c d p v))"
  by (simp_all add: boxes_at_def mk_rect_def BOX_SIZE_def)

lemma graze_boxes:
  "box1 (move_boxes (boxes_at 100 100 300 100 p v) no_keys (1 / 50)) = mk_rect 100 100 50 50"
  "box2 (move_boxes (boxes_at 100 100 300 100 p v) no_keys (1 / 50)) = mk_rect 300 100 50 50"
  by (simp_all add: move_boxes_def boxes_at_def key_defs direction_values move_clamp_def
       WIDTH_def HEIGHT_def BOX_SIZE_def SPEED_def py_int_def set_topleft_def
       colliderect_def mk_rect_def Let_def)

lemma graze_walls:
  "ball_after_walls (boxes_at 100 100 300 100 (159, 125) (50, 0)) (1 / 50)
     = ((160, 125), (50 * BALL_FRICTION, 0))"
  by (simp add: ball_after_walls_def boxes_at_def bounce_walls_def integrate_ball_def
       wall_low_def wall_high_def Let_def BALL_RADIUS_def WIDTH_def HEIGHT_def)

lemma graze_overlaps:
  "circle_rect_overlap 160 125 (real_of_int BALL_RADIUS) (mk_rect 100 100 50 50) = (12, 0)"
  "circle_rect_overlap 172 125 (real_of_int BALL_RADIUS) (mk_rect 300 100 50 50) = (0, 0)"
  by (simp_all add: circle_rect_overlap_def closest_x_def closest_y_def rect_edges mk_rect_def
       BALL_RADIUS_def Let_def sqrt_100)

lemma graze_box1:
  "fst (ball_after_box1 (boxes_at 100 100 300 100 (159, 125) (50, 0)) no_keys (1 / 50)) = (172, 125)"
  unfolding ball_after_box1_def graze_walls graze_boxes
  by (simp add: bounce_box_def graze_overlaps Let_def)

lemma not_degenerate_examples:
  "\<not> degenerate 175 125 (mk_rect 190 100 50 50)"
  "\<not> degenerate 160 125 (mk_rect 100 100 50 50)"
  by (simp_all add: degenerate_def closest_x_def closest_y_def rect_edges mk_rect_def)

theorem tick_clears_box_witness:
  "circle_rect_overlap
     (fst (ball_pos (tick (boxes_at 100 100 200 100 (174, 125) (50, 0)) a_key (1 / 50))))
     (snd (ball_pos (tick (boxes_at 100 100 200 100 (174, 125) (50, 0)) a_key (1 / 50))))
     (real_of_int BALL_RADIUS)
     (box2 (tick (boxes_at 100 100 200 100 (174, 125) (50, 0)) a_key (1 / 50))) = (0, 0)
   \<and> circle_rect_overlap
     (fst (ball_pos (tick (boxes_at 100 100 300 100 (159, 125) (50, 0)) no_keys (1 / 50))))
     (snd (ball_pos (tick (boxes_at 100 100 300 100 (159, 125) (50, 0)) no_keys (1 / 50))))
     (real_of_int BALL_RADIUS)
     (box1 (tick (boxes_at 100 100 300 100 (159, 125) (50, 0)) no_keys (1 / 50))) = (0, 0)"
proof -
  let ?A = "boxes_at 100 100 200 100 (174, 125) (50, 0)"
  let ?B = "boxes_at 100 100 300 100 (159, 125) (50, 0)"
  have a: "\<not> degenerate (fst (fst (ball_after_box1 ?A a_key (1 / 50))))
             (snd (fst (ball_after_box1 ?A a_key (1 / 50)))) (box2 (move_boxes ?A a_key (1 / 50)))"
    unfolding squeeze_box1 squeeze_boxes by (simp add: not_degenerate_examples)
  have b: "\<not> degenerate (fst (fst (ball_after_walls ?B (1 / 50))))
             (snd (fst (ball_after_walls ?B (1 / 50)))) (box1 (move_boxes ?B no_keys (1 / 50)))
         \<and> circle_rect_overlap (fst (fst (ball_after_box1 ?B no_keys (1 / 50))))
             (snd (fst (ball_after_box1 ?B no_keys (1 / 50)))) (real_of_int BALL_RADIUS)
             (box2 (move_boxes ?B no_keys (1 / 50))) = (0, 0)"
    unfolding graze_walls graze_boxes graze_box1
    by (simp add: not_degenerate_examples graze_overlaps)
  from tick_clears_box [OF boxes_at_sizes, of 100 100 200 100 "(174, 125)" "(50, 0)" a_key "1 / 50"] a
       tick_clears_box [OF boxes_at_sizes, of 100 100 300 100 "(159, 125)" "(50, 0)" no_keys "1 / 50"] b
  show ?thesis by blast
qed

end
